theory Spec2Isabelle
  imports Main
begin

section \<open>Data model (types.ts)\<close>

text \<open>
  \<^verbatim>\<open>status: 'idle' | 'processing' | 'success' | 'error'\<close> of \<^verbatim>\<open>BatchItem\<close>.
\<close>

datatype Status = Idle | Processing | Success | Error

text \<open>
  \<^verbatim>\<open>BatchItem\<close>. A field that may be \<^verbatim>\<open>null\<close> or absent is an option. JavaScript strings
  are modelled as \<open>string\<close>. The interface has no property \<^verbatim>\<open>error\<close>, but
  \<^verbatim>\<open>processItem\<close> writes one on the object (App.tsx line 38), so the record carries it.
  The field \<^verbatim>\<open>id\<close> is named \<open>item_id\<close>, since \<open>id\<close> is the identity function of HOL.
\<close>

record BatchItem =
  item_id :: string
  original :: string
  generated :: "string option"
  status :: Status
  errorMessage :: "string option"
  error :: "string option"

datatype AspectRatio = SQUARE | PORTRAIT | LANDSCAPE | WIDE

fun AspectRatio_value :: "AspectRatio \<Rightarrow> string" where
  "AspectRatio_value SQUARE = ''1:1''"
| "AspectRatio_value PORTRAIT = ''3:4''"
| "AspectRatio_value LANDSCAPE = ''4:3''"
| "AspectRatio_value WIDE = ''16:9''"

section \<open>The image-refinement service (services/geminiService.ts)\<close>

subsection \<open>Request and response of \<^verbatim>\<open>ai.models.generateContent\<close>\<close>

text \<open>
  A part of a content: \<^verbatim>\<open>inlineData\<close> with its \<^verbatim>\<open>data\<close> and \<^verbatim>\<open>mimeType\<close>, or \<^verbatim>\<open>text\<close>
  (named \<open>partText\<close> here). Every property the code tests for presence is an option.
\<close>

record InlineData =
  data :: "string option"
  mimeType :: "string option"

record Part =
  inlineData :: "InlineData option"
  partText :: "string option"

record Content =
  parts :: "Part list option"

record Candidate =
  content :: "Content option"

record Response =
  candidates :: "Candidate list option"

text \<open>
  The argument of \<^verbatim>\<open>generateContent\<close> (lines 40 to 61): \<^verbatim>\<open>model\<close>, \<^verbatim>\<open>contents.parts\<close> and
  \<^verbatim>\<open>config.imageConfig.aspectRatio\<close>.
\<close>

record Request =
  model :: string
  contents_parts :: "Part list"
  imageConfig_aspectRatio :: AspectRatio

text \<open>
  A value that a promise rejects with or that \<^verbatim>\<open>throw\<close> throws (\<^verbatim>\<open>catch (error: any)\<close>):
  \<^verbatim>\<open>undefined\<close>, \<^verbatim>\<open>null\<close>, or a value whose property \<^verbatim>\<open>message\<close> can be read, such as an
  \<^verbatim>\<open>Error\<close>; the argument is that property, \<open>None\<close> when it is absent.
\<close>

datatype Thrown = ThrownUndefined | ThrownNull | ThrownError "string option"

definition NoImageError :: Thrown where
  "NoImageError = ThrownError (Some ''No image data received from Gemini.'')"

text \<open>
  Reading the property \<open>property\<close> of \<^verbatim>\<open>undefined\<close> or \<^verbatim>\<open>null\<close> (\<open>base\<close>) throws a TypeError;
  the message is worded as V8 words it.
\<close>

definition TypeError :: "string \<Rightarrow> string \<Rightarrow> Thrown" where
  "TypeError base property =
     ThrownError (Some (''Cannot read properties of '' @ base @ '' (reading ''
                        @ [CHR 0x27] @ property @ [CHR 0x27] @ '')''))"

text \<open>\<^verbatim>\<open>error.message\<close>.\<close>

fun readMessage :: "Thrown \<Rightarrow> Thrown + string option" where
  "readMessage ThrownUndefined = Inl (TypeError ''undefined'' ''message'')"
| "readMessage ThrownNull = Inl (TypeError ''null'' ''message'')"
| "readMessage (ThrownError m) = Inr m"

subsection \<open>String operations of JavaScript\<close>

text \<open>\<^verbatim>\<open>s.split(c)\<close> for a separator of one character: never empty.\<close>

fun split_js :: "char \<Rightarrow> string \<Rightarrow> string list" where
  "split_js c [] = [[]]"
| "split_js c (x # xs) =
     (if x = c then [] # split_js c xs
      else (case split_js c xs of
              [] \<Rightarrow> [[x]]
            | w # ws \<Rightarrow> (x # w) # ws))"

text \<open>\<^verbatim>\<open>a[i]\<close>: \<^verbatim>\<open>undefined\<close> out of range.\<close>

definition at_js :: "'a list \<Rightarrow> nat \<Rightarrow> 'a option" where
  "at_js xs i = (if i < length xs then Some (xs ! i) else None)"

text \<open>\<^verbatim>\<open>s.indexOf(c)\<close>: \<open>-1\<close> when \<open>c\<close> does not occur.\<close>

fun indexOf :: "string \<Rightarrow> char \<Rightarrow> int" where
  "indexOf [] c = - 1"
| "indexOf (x # xs) c =
     (if x = c then 0
      else (let r = indexOf xs c in if r < 0 then - 1 else r + 1))"

text \<open>
  \<^verbatim>\<open>s.substring(a, b)\<close>: both indices are clamped to \<open>0 .. length s\<close> and swapped when
  \<open>a > b\<close>.
\<close>

definition substring :: "string \<Rightarrow> int \<Rightarrow> int \<Rightarrow> string" where
  "substring s a b =
     (let n = int (length s);
          a' = max 0 (min n a);
          b' = max 0 (min n b);
          lo = min a' b';
          hi = max a' b'
      in take (nat (hi - lo)) (drop (nat lo) s))"

subsection \<open>The prompt\<close>

definition nl :: string where
  "nl = [CHR 0x0A]"

text \<open>The template literal of lines 26 to 38, up to the interpolation.\<close>

definition promptHead :: string where
  "promptHead =
     nl @
     ''      Act as a professional high-end product photographer and photo retoucher. '' @ nl @
     ''      Transform the input image into a high-definition, studio-quality e-commerce main product image (Hero Shot).'' @ nl @
     ''      '' @ nl @
     ''      Requirements:'' @ nl @
     ''      1. Lighting: Use professional studio lighting (softbox/rim lighting) to highlight product details and texture.'' @ nl @
     ''      2. Background: Place the product on a clean, neutral background (pure white or very subtle gradient studio gray) suitable for Amazon/Shopify.'' @ nl @
     ''      3. Quality: Ensure 4K resolution look, sharp edges, and reduced noise.'' @ nl @
     ''      4. Aesthetics: Make the product look premium, expensive, and desirable.'' @ nl @
     ''      5. Fixes: Correct any white balance issues, remove dust/scratches if visible, and straighten the perspective if needed.'' @ nl @
     ''      '' @ nl @
     ''      User specific instructions: ''"

text \<open>The rest of the template literal, after the interpolation.\<close>

definition promptTail :: string where
  "promptTail = nl @ ''    ''"

definition defaultInstruction :: string where
  "defaultInstruction =
     ''Keep the product faithful to the original but significantly enhance the visual appeal.''"

text \<open>\<^verbatim>\<open>a || b\<close> on strings: the empty string is falsy.\<close>

definition or_js :: "string \<Rightarrow> string \<Rightarrow> string" where
  "or_js a b = (if a = [] then b else a)"

definition prompt :: "string \<Rightarrow> string" where
  "prompt customInstruction =
     promptHead @ or_js customInstruction defaultInstruction @ promptTail"

subsection \<open>The request and the image\<close>

text \<open>The request built from the three arguments (lines 22 to 61).\<close>

definition generateContentRequest :: "string \<Rightarrow> string \<Rightarrow> AspectRatio \<Rightarrow> Request" where
  "generateContentRequest base64Image customInstruction aspectRatio =
     (let base64Data = at_js (split_js CHR '','' base64Image) 1;
          mimeType = substring base64Image
                       (indexOf base64Image CHR '':'' + 1) (indexOf base64Image CHR '';'')
      in \<lparr> model = ''gemini-2.5-flash-image'',
           contents_parts =
             [\<lparr> inlineData = Some \<lparr> data = base64Data, mimeType = Some mimeType \<rparr>,
                partText = None \<rparr>,
              \<lparr> inlineData = None, partText = Some (prompt customInstruction) \<rparr>],
           imageConfig_aspectRatio = aspectRatio \<rparr>)"

text \<open>
  The loop of lines 65 to 69: the first part whose \<^verbatim>\<open>inlineData\<close> and \<^verbatim>\<open>inlineData.data\<close> are
  truthy gives the data URL; the empty string is falsy. With no such part the loop ends
  and line 72 throws.
\<close>

fun firstImage :: "Part list \<Rightarrow> Thrown + string option" where
  "firstImage [] = Inl NoImageError"
| "firstImage (p # ps) =
     (case inlineData p of
        None \<Rightarrow> firstImage ps
      | Some i \<Rightarrow>
          (case data i of
             None \<Rightarrow> firstImage ps
           | Some d \<Rightarrow>
               if d = [] then firstImage ps
               else Inr (Some (''data:image/png;base64,'' @ d))))"

text \<open>
  Lines 64 to 72. \<^verbatim>\<open>response.candidates\<close> absent is falsy; an array is truthy even when
  empty, and then \<^verbatim>\<open>candidates[0].content\<close> reads \<^verbatim>\<open>content\<close> of \<^verbatim>\<open>undefined\<close>; when the
  candidate has no content, \<^verbatim>\<open>content.parts\<close> reads \<^verbatim>\<open>parts\<close> of \<^verbatim>\<open>undefined\<close>.
\<close>

definition extractImage :: "Response \<Rightarrow> Thrown + string option" where
  "extractImage response =
     (case candidates response of
        None \<Rightarrow> Inl NoImageError
      | Some cs \<Rightarrow>
          (case cs of
             [] \<Rightarrow> Inl (TypeError ''undefined'' ''content'')
           | c # _ \<Rightarrow>
               (case content c of
                  None \<Rightarrow> Inl (TypeError ''undefined'' ''parts'')
                | Some ct \<Rightarrow>
                    (case parts ct of
                       None \<Rightarrow> Inl NoImageError
                     | Some ps \<Rightarrow> firstImage ps))))"

text \<open>
  How the promise of \<^verbatim>\<open>refineProductImage\<close> settles once the service has answered (lines 63
  to 77): a rejection of the service is caught, logged and thrown again as it is; a
  response goes through the extraction, whose errors are thrown again as well. \<open>Inl\<close> is
  a rejection, \<open>Inr\<close> the fulfilment value, \<open>None\<close> being \<^verbatim>\<open>null\<close>.
\<close>

definition settle :: "Thrown + Response \<Rightarrow> Thrown + string option" where
  "settle answer = (case answer of Inl e \<Rightarrow> Inl e | Inr response \<Rightarrow> extractImage response)"

section \<open>Effects\<close>

type_synonym Queue = "BatchItem list"

text \<open>
  What a program does that can be seen from outside, in the order it happens: the queue
  cell takes a new value; an updater throws when React runs it, and React unmounts the
  component tree (there is no error boundary); a request goes out to the service; the
  service answers it. An effect on the queue stands where \<^verbatim>\<open>setQueue\<close> is called.
\<close>

datatype Effect =
    Updated Queue
  | Unmounted Thrown
  | Requested Request
  | Answered "Thrown + Response"

text \<open>
  The component: the value of the \<^verbatim>\<open>queue\<close> cell, and whether the component is still
  mounted. After an unmount, \<open>cell\<close> keeps the last value the cell had.
\<close>

record Component =
  cell :: Queue
  mounted :: bool

text \<open>
  \<^verbatim>\<open>setQueue(updater)\<close> with a functional updater. React runs the queued updaters in order,
  each on the value the previous one left; the updater is run here, at the call. An
  updater that throws takes the component down; on an unmounted component the call does
  nothing.
\<close>

definition setQueue :: "(Queue \<Rightarrow> Thrown + Queue) \<Rightarrow> Component \<Rightarrow> Component \<times> Effect list" where
  "setQueue updater c =
     (if mounted c then
        (case updater (cell c) of
           Inr q \<Rightarrow> (c\<lparr> cell := q \<rparr>, [Updated q])
         | Inl e \<Rightarrow> (c\<lparr> mounted := False \<rparr>, [Unmounted e]))
      else (c, []))"

text \<open>
  \<^verbatim>\<open>await ai.models.generateContent(request)\<close>: the request goes out, other handlers run
  while the promise is pending (\<open>during\<close>), and the service answers: \<open>service request\<close> is a
  rejection or a response.
\<close>

definition generateContent ::
  "(Request \<Rightarrow> Thrown + Response) \<Rightarrow> (Component \<Rightarrow> Component \<times> Effect list) \<Rightarrow> Request
     \<Rightarrow> Component \<Rightarrow> (Thrown + Response) \<times> Component \<times> Effect list" where
  "generateContent service during request c =
     (let (c', t) = during c;
          answer = service request
      in (answer, c', [Requested request] @ t @ [Answered answer]))"

subsection \<open>\<^verbatim>\<open>refineProductImage\<close>\<close>

text \<open>
  \<^verbatim>\<open>refineProductImage\<close>, declared \<^verbatim>\<open>Promise<string | null>\<close>: it builds the request, awaits the
  service and settles. The result is how the promise settles, the component as the
  handlers that ran meanwhile left it, and the effects.
\<close>

definition refineProductImage ::
  "(Request \<Rightarrow> Thrown + Response) \<Rightarrow> (Component \<Rightarrow> Component \<times> Effect list)
     \<Rightarrow> string \<Rightarrow> string \<Rightarrow> AspectRatio \<Rightarrow> Component
     \<Rightarrow> (Thrown + string option) \<times> Component \<times> Effect list" where
  "refineProductImage service during base64Image customInstruction aspectRatio c =
     (let request = generateContentRequest base64Image customInstruction aspectRatio;
          (answer, c', t) = generateContent service during request c
      in (settle answer, c', t))"

section \<open>The application (App.tsx)\<close>

text \<open>
  The state of the component: the four \<^verbatim>\<open>useState\<close> cells. A handler reads them as of the
  last render, which is the current state whenever an event is handled after the render.
\<close>

record AppState =
  queue :: Queue
  customPrompt :: string
  aspectRatio :: AspectRatio
  isProcessing :: bool

subsection \<open>Queue updates\<close>

text \<open>
  \<^verbatim>\<open>handleImagesSelect\<close>: each image comes with the identifier that \<^verbatim>\<open>crypto.randomUUID()\<close>
  draws for it.
\<close>

definition newItem :: "string \<times> string \<Rightarrow> BatchItem" where
  "newItem p =
     \<lparr> item_id = fst p, original = snd p, generated = None, status = Idle,
       errorMessage = None, error = None \<rparr>"

definition handleImagesSelect :: "(string \<times> string) list \<Rightarrow> Queue \<Rightarrow> Queue" where
  "handleImagesSelect base64s prev = prev @ map newItem base64s"

definition handleDeleteItem :: "string \<Rightarrow> Queue \<Rightarrow> Queue" where
  "handleDeleteItem i prev = filter (\<lambda>item. item_id item \<noteq> i) prev"

text \<open>
  The remove button of the card at position \<open>k\<close> (lines 232 to 240):
  \<^verbatim>\<open>onClick={() => handleDeleteItem(item.id)}\<close> with
  \<^verbatim>\<open>disabled={item.status === 'processing'}\<close>. A disabled button dispatches no click.
\<close>

definition removeButton_disabled :: "BatchItem \<Rightarrow> bool" where
  "removeButton_disabled item = (status item = Processing)"

definition removeButton_click :: "nat \<Rightarrow> Queue \<Rightarrow> Queue" where
  "removeButton_click k q =
     (case at_js q k of
        None \<Rightarrow> q
      | Some item \<Rightarrow>
          if removeButton_disabled item then q else handleDeleteItem (item_id item) q)"

text \<open>
  What can reach the queue while a run awaits the service: images that arrive from the
  uploader, and clicks on remove buttons. (The clear button is not rendered and the
  other controls are disabled while \<^verbatim>\<open>isProcessing\<close> holds.) An unmounted component has no
  buttons; a click on an enabled remove button calls \<^verbatim>\<open>handleDeleteItem\<close>, which calls
  \<^verbatim>\<open>setQueue\<close>.
\<close>

datatype UserEvent = ImagesSelected "(string \<times> string) list" | RemoveClicked nat

fun dispatch :: "UserEvent \<Rightarrow> Component \<Rightarrow> Component \<times> Effect list" where
  "dispatch (ImagesSelected base64s) c =
     setQueue (\<lambda>prev. Inr (handleImagesSelect base64s prev)) c"
| "dispatch (RemoveClicked k) c =
     (if mounted c then
        (case at_js (cell c) k of
           None \<Rightarrow> (c, [])
         | Some item \<Rightarrow>
             if removeButton_disabled item then (c, [])
             else setQueue (\<lambda>prev. Inr (handleDeleteItem (item_id item) prev)) c)
      else (c, []))"

text \<open>The user events \<open>evs\<close>, handled one after the other.\<close>

fun handleAll :: "UserEvent list \<Rightarrow> Component \<Rightarrow> Component \<times> Effect list" where
  "handleAll [] c = (c, [])"
| "handleAll (e # es) c =
     (let (c1, t1) = dispatch e c;
          (c2, t2) = handleAll es c1
      in (c2, t1 @ t2))"

subsection \<open>\<^verbatim>\<open>processItem\<close>\<close>

text \<open>The updaters of lines 38 and 42 to 46.\<close>

definition markProcessing :: "string \<Rightarrow> Queue \<Rightarrow> Queue" where
  "markProcessing i prev =
     map (\<lambda>x. if item_id x = i then x\<lparr> status := Processing, error := None \<rparr> else x) prev"

definition markSuccess :: "string \<Rightarrow> string option \<Rightarrow> Queue \<Rightarrow> Queue" where
  "markSuccess i result prev =
     map (\<lambda>x. if item_id x = i then x\<lparr> status := Success, generated := result \<rparr> else x) prev"

text \<open>\<^verbatim>\<open>m || "Failed"\<close> for the property \<open>m\<close>: an absent or empty message is falsy.\<close>

definition messageOrFailed :: "string option \<Rightarrow> string" where
  "messageOrFailed m = (case m of None \<Rightarrow> ''Failed'' | Some s \<Rightarrow> or_js s ''Failed'')"

text \<open>\<^verbatim>\<open>prev.map(f)\<close> with a callback that may throw: the first throw ends the map.\<close>

fun map_js :: "('a \<Rightarrow> Thrown + 'b) \<Rightarrow> 'a list \<Rightarrow> Thrown + 'b list" where
  "map_js f [] = Inr []"
| "map_js f (x # xs) =
     (case f x of
        Inl e \<Rightarrow> Inl e
      | Inr y \<Rightarrow> (case map_js f xs of Inl e \<Rightarrow> Inl e | Inr ys \<Rightarrow> Inr (y # ys)))"

text \<open>
  The updater of lines 48 to 52. It reads \<^verbatim>\<open>error.message\<close> when it comes to an item with the
  identifier, which is when React runs the updater, outside the \<^verbatim>\<open>try\<close>.
\<close>

definition markError :: "string \<Rightarrow> Thrown \<Rightarrow> Queue \<Rightarrow> Thrown + Queue" where
  "markError i e prev =
     map_js (\<lambda>x. if item_id x = i
                  then (case readMessage e of
                          Inl t \<Rightarrow> Inl t
                        | Inr m \<Rightarrow> Inr (x\<lparr> status := Error,
                                             errorMessage := Some (messageOrFailed m) \<rparr>))
                  else Inr x) prev"

text \<open>
  \<^verbatim>\<open>processItem\<close> (lines 36 to 54) on the snapshot \<open>item\<close>. \<open>service\<close> is the service's answer
  to this call, and \<open>evs\<close> are the user events handled while the call is awaited. The
  \<^verbatim>\<open>catch\<close> takes every rejection.
\<close>

definition processItem ::
  "(Request \<Rightarrow> Thrown + Response) \<Rightarrow> string \<Rightarrow> AspectRatio \<Rightarrow> UserEvent list
     \<Rightarrow> BatchItem \<Rightarrow> Component \<Rightarrow> Component \<times> Effect list" where
  "processItem service instruction ratio evs item c =
     (let (c1, t1) = setQueue (\<lambda>prev. Inr (markProcessing (item_id item) prev)) c;
          (result, c2, t2) =
             refineProductImage service (handleAll evs) (original item) instruction ratio c1;
          (c3, t3) =
             (case result of
                Inr r \<Rightarrow> setQueue (\<lambda>prev. Inr (markSuccess (item_id item) r prev)) c2
              | Inl e \<Rightarrow> setQueue (markError (item_id item) e) c2)
      in (c3, t1 @ t2 @ t3))"

subsection \<open>\<^verbatim>\<open>processQueue\<close>\<close>

text \<open>Line 59: the items of the snapshot that a run takes.\<close>

definition itemsToProcess :: "Queue \<Rightarrow> BatchItem list" where
  "itemsToProcess q = filter (\<lambda>item. status item = Idle \<or> status item = Error) q"

text \<open>
  The loop of lines 62 to 64. The \<open>k\<close>-th call of the run is answered by \<open>ai k\<close>, and
  \<open>env k\<close> are the user events handled while it is awaited.
\<close>

fun processItems ::
  "(nat \<Rightarrow> Request \<Rightarrow> Thrown + Response) \<Rightarrow> (nat \<Rightarrow> UserEvent list) \<Rightarrow> string \<Rightarrow> AspectRatio
     \<Rightarrow> nat \<Rightarrow> BatchItem list \<Rightarrow> Component \<Rightarrow> Component \<times> Effect list" where
  "processItems ai env instruction ratio k [] c = (c, [])"
| "processItems ai env instruction ratio k (item # items) c =
     (let (c1, t1) = processItem (ai k) instruction ratio (env k) item c;
          (c2, t2) = processItems ai env instruction ratio (Suc k) items c1
      in (c2, t1 @ t2))"

text \<open>
  \<^verbatim>\<open>processQueue\<close> (lines 27 to 67): the guard, the snapshot, the loop, and
  \<^verbatim>\<open>setIsProcessing(false)\<close>. The instruction and the ratio are those of the closure. The
  result is the state after the run and the effects of the run; \<^verbatim>\<open>setIsProcessing(true)\<close> of
  line 29 is undone by line 66 and does not show in it. When the effects hold an
  \<open>Unmounted\<close>, the component is gone and the state is the last one it had.
\<close>

definition processQueue ::
  "(nat \<Rightarrow> Request \<Rightarrow> Thrown + Response) \<Rightarrow> (nat \<Rightarrow> UserEvent list) \<Rightarrow> AppState
     \<Rightarrow> AppState \<times> Effect list" where
  "processQueue ai env s =
     (if isProcessing s then (s, [])
      else (let (c, t) = processItems ai env (customPrompt s) (aspectRatio s) 0
                           (itemsToProcess (queue s)) \<lparr> cell = queue s, mounted = True \<rparr>
            in (s\<lparr> queue := cell c, isProcessing := False \<rparr>, t)))"

text \<open>A run with no user event in between.\<close>

definition quiet :: "nat \<Rightarrow> UserEvent list" where
  "quiet k = []"

section \<open>Observing a run\<close>

text \<open>The requests that went out, the answers, and the values the queue took, in order.\<close>

fun requestsOf :: "Effect list \<Rightarrow> Request list" where
  "requestsOf [] = []"
| "requestsOf (Requested req # t) = req # requestsOf t"
| "requestsOf (Updated q # t) = requestsOf t"
| "requestsOf (Unmounted e # t) = requestsOf t"
| "requestsOf (Answered a # t) = requestsOf t"

fun answersOf :: "Effect list \<Rightarrow> (Thrown + Response) list" where
  "answersOf [] = []"
| "answersOf (Answered a # t) = a # answersOf t"
| "answersOf (Updated q # t) = answersOf t"
| "answersOf (Unmounted e # t) = answersOf t"
| "answersOf (Requested req # t) = answersOf t"

fun updatesOf :: "Effect list \<Rightarrow> Queue list" where
  "updatesOf [] = []"
| "updatesOf (Updated q # t) = q # updatesOf t"
| "updatesOf (Unmounted e # t) = updatesOf t"
| "updatesOf (Requested req # t) = updatesOf t"
| "updatesOf (Answered a # t) = updatesOf t"










text \<open>A part of a response that carries inline image data (the test of line 66).\<close>

definition hasImageData :: "Part \<Rightarrow> bool" where
  "hasImageData p =
     (case inlineData p of
        None \<Rightarrow> False
      | Some i \<Rightarrow> (case data i of None \<Rightarrow> False | Some d \<Rightarrow> d \<noteq> []))"

section \<open>Example inputs\<close>

text \<open>
  Three data URLs, two responses of the service (one with an image, one with text only),
  services built from them and from rejections, and application states, used to evaluate
  the definitions.
\<close>

definition exampleImage :: string where
  "exampleImage = ''data:image/png;base64,AAAA''"

definition exampleImageB :: string where
  "exampleImageB = ''data:image/jpeg;base64,BBBB''"

definition exampleImageC :: string where
  "exampleImageC = ''data:image/webp;base64,CCCC''"

definition imageResponse :: Response where
  "imageResponse =
     \<lparr> candidates = Some [\<lparr> content = Some \<lparr> parts = Some
         [\<lparr> inlineData = Some \<lparr> data = Some ''QUJD'', mimeType = Some ''image/png'' \<rparr>,
            partText = None \<rparr>] \<rparr> \<rparr>] \<rparr>"

definition textResponse :: Response where
  "textResponse =
     \<lparr> candidates = Some [\<lparr> content = Some \<lparr> parts = Some
         [\<lparr> inlineData = None, partText = Some ''Sorry.'' \<rparr>] \<rparr> \<rparr>] \<rparr>"

definition succeeds :: "Request \<Rightarrow> Thrown + Response" where
  "succeeds req = Inr imageResponse"

definition answersText :: "Request \<Rightarrow> Thrown + Response" where
  "answersText req = Inr textResponse"

definition fails :: "Request \<Rightarrow> Thrown + Response" where
  "fails req = Inl (ThrownError (Some ''quota exceeded''))"

definition failsSilently :: "Request \<Rightarrow> Thrown + Response" where
  "failsSilently req = Inl (ThrownError None)"

definition rejectsUndefined :: "Request \<Rightarrow> Thrown + Response" where
  "rejectsUndefined req = Inl ThrownUndefined"

definition allRejectUndefined :: "nat \<Rightarrow> Request \<Rightarrow> Thrown + Response" where
  "allRejectUndefined k = rejectsUndefined"

definition allSucceed :: "nat \<Rightarrow> Request \<Rightarrow> Thrown + Response" where
  "allSucceed k = succeeds"

definition allFail :: "nat \<Rightarrow> Request \<Rightarrow> Thrown + Response" where
  "allFail k = fails"

definition secondFails :: "nat \<Rightarrow> Request \<Rightarrow> Thrown + Response" where
  "secondFails k = (if k = 1 then fails else succeeds)"

definition firstRejectsUndefined :: "nat \<Rightarrow> Request \<Rightarrow> Thrown + Response" where
  "firstRejectsUndefined k = (if k = 0 then rejectsUndefined else succeeds)"

definition lateUpload :: "nat \<Rightarrow> UserEvent list" where
  "lateUpload k = (if k = 0 then [ImagesSelected [(''d'', exampleImage)]] else [])"

definition oneItem :: AppState where
  "oneItem =
     \<lparr> queue = handleImagesSelect [(''a'', exampleImage)] [],
       customPrompt = '''', aspectRatio = SQUARE, isProcessing = False \<rparr>"

definition threeItems :: AppState where
  "threeItems =
     \<lparr> queue = handleImagesSelect
                 [(''a'', exampleImage), (''b'', exampleImageB), (''c'', exampleImageC)] [],
       customPrompt = ''pure white background'', aspectRatio = PORTRAIT,
       isProcessing = False \<rparr>"

definition failedItem :: BatchItem where
  "failedItem =
     \<lparr> item_id = ''a'', original = exampleImage, generated = None, status = Error,
       errorMessage = Some ''quota exceeded'', error = None \<rparr>"

lemmas example_defs = exampleImage_def exampleImageB_def exampleImageC_def imageResponse_def textResponse_def succeeds_def
  answersText_def fails_def failsSilently_def rejectsUndefined_def allRejectUndefined_def allSucceed_def allFail_def
  secondFails_def firstRejectsUndefined_def lateUpload_def oneItem_def threeItems_def
  failedItem_def

lemmas run_defs = processQueue_def processItem_def refineProductImage_def generateContent_def
  setQueue_def settle_def itemsToProcess_def handleImagesSelect_def newItem_def
  markProcessing_def markSuccess_def markError_def messageOrFailed_def or_js_def
  extractImage_def quiet_def Let_def

section \<open>Properties of the definitions\<close>

subsection \<open>The updaters\<close>

lemma map_js_Inr:
  "(\<And>x. x \<in> set xs \<Longrightarrow> f x = Inr (g x)) \<Longrightarrow> map_js f xs = Inr (map g xs)"
  by (induction xs) simp_all

lemma markError_readable:
  "readMessage e = Inr m \<Longrightarrow>
     markError i e q =
       Inr (map (\<lambda>x. if item_id x = i
                      then x\<lparr> status := Error, errorMessage := Some (messageOrFailed m) \<rparr>
                      else x) q)"
  unfolding markError_def by (rule map_js_Inr) simp

lemma markError_unreadable:
  "readMessage e = Inl t \<Longrightarrow>
     markError i e q = (if list_ex (\<lambda>x. item_id x = i) q then Inl t else Inr q)"
  unfolding markError_def by (induction q) (simp_all split: sum.splits)





subsection \<open>Effects of the primitives\<close>

lemma setQueue_unmounted: "\<not> mounted c \<Longrightarrow> setQueue u c = (c, [])"
  by (simp add: setQueue_def)

lemma setQueue_Inr:
  "mounted c \<Longrightarrow> setQueue (\<lambda>prev. Inr (f prev)) c = (c\<lparr> cell := f (cell c) \<rparr>, [Updated (f (cell c))])"
  by (simp add: setQueue_def)

lemma dispatch_cases:
  "dispatch e c = (c, []) \<or> (\<exists>q. mounted c \<and> dispatch e c = (c\<lparr> cell := q \<rparr>, [Updated q]))"
  by (cases e) (auto simp: setQueue_def split: option.splits)

lemma handleAll_unmounted: "\<not> mounted c \<Longrightarrow> handleAll evs c = (c, [])"
proof (induction evs)
  case Nil
  show ?case by simp
next
  case (Cons e evs)
  have "dispatch e c = (c, [])" using dispatch_cases [of e c] Cons.prems by auto
  then show ?case using Cons by simp
qed



subsection \<open>Effects of \<^verbatim>\<open>processItem\<close>\<close>

lemma processItem_unmounted:
  "\<not> mounted c \<Longrightarrow>
     processItem g p r evs item c =
       (c, [Requested (generateContentRequest (original item) p r),
            Answered (g (generateContentRequest (original item) p r))])"
  by (simp add: processItem_def refineProductImage_def generateContent_def
        setQueue_unmounted handleAll_unmounted Let_def split: sum.splits)

lemma processItem_mounted:
  assumes "mounted c"
  shows "processItem g p r evs item c =
           (let c1 = c\<lparr> cell := markProcessing (item_id item) (cell c) \<rparr>;
                req = generateContentRequest (original item) p r;
                c2 = fst (handleAll evs c1);
                last = (case settle (g req) of
                          Inr v \<Rightarrow> setQueue (\<lambda>prev. Inr (markSuccess (item_id item) v prev)) c2
                        | Inl e \<Rightarrow> setQueue (markError (item_id item) e) c2)
            in (fst last,
                Updated (cell c1) # Requested req # snd (handleAll evs c1)
                  @ Answered (g req) # snd last))"
  using assms
  by (simp add: processItem_def refineProductImage_def generateContent_def
        setQueue_Inr Let_def split_beta split: sum.splits)

subsection \<open>The order of the effects\<close>






lemma processItems_Cons_effects:
  "snd (processItems ai env p r k (item # items) c) =
     snd (processItem (ai k) p r (env k) item c) @
     snd (processItems ai env p r (Suc k) items (fst (processItem (ai k) p r (env k) item c)))"
  by (simp add: split_beta Let_def)

lemma processItems_Cons_component:
  "fst (processItems ai env p r k (item # items) c) =
     fst (processItems ai env p r (Suc k) items (fst (processItem (ai k) p r (env k) item c)))"
  by (simp add: split_beta Let_def)







subsection \<open>Requests and answers of a run\<close>

lemma requestsOf_append: "requestsOf (a @ b) = requestsOf a @ requestsOf b"
  by (induction a rule: requestsOf.induct) simp_all

lemma answersOf_append: "answersOf (a @ b) = answersOf a @ answersOf b"
  by (induction a rule: answersOf.induct) simp_all

lemma setQueue_silent:
  "requestsOf (snd (setQueue u c)) = [] \<and> answersOf (snd (setQueue u c)) = []"
  by (simp add: setQueue_def split: sum.splits)

lemma handleAll_silent:
  "requestsOf (snd (handleAll evs c)) = [] \<and> answersOf (snd (handleAll evs c)) = []"
proof (induction evs arbitrary: c)
  case Nil
  show ?case by simp
next
  case (Cons e evs)
  from dispatch_cases [of e c] show ?case
  proof
    assume "dispatch e c = (c, [])"
    then show ?thesis using Cons.IH [of c] by (simp add: split_beta)
  next
    assume "\<exists>q. mounted c \<and> dispatch e c = (c\<lparr> cell := q \<rparr>, [Updated q])"
    then obtain q where "dispatch e c = (c\<lparr> cell := q \<rparr>, [Updated q])" by blast
    then show ?thesis using Cons.IH [of "c\<lparr> cell := q \<rparr>"] by (simp add: split_beta)
  qed
qed

lemma processItem_effects:
  "snd (processItem g p r evs item c) =
     snd (setQueue (\<lambda>prev. Inr (markProcessing (item_id item) prev)) c)
     @ Requested (generateContentRequest (original item) p r)
     # snd (handleAll evs (fst (setQueue (\<lambda>prev. Inr (markProcessing (item_id item) prev)) c)))
     @ Answered (g (generateContentRequest (original item) p r))
     # snd (case settle (g (generateContentRequest (original item) p r)) of
              Inr v \<Rightarrow> setQueue (\<lambda>prev. Inr (markSuccess (item_id item) v prev))
                         (fst (handleAll evs
                            (fst (setQueue (\<lambda>prev. Inr (markProcessing (item_id item) prev)) c))))
            | Inl e \<Rightarrow> setQueue (markError (item_id item) e)
                         (fst (handleAll evs
                            (fst (setQueue (\<lambda>prev. Inr (markProcessing (item_id item) prev)) c)))))"
  by (simp add: processItem_def refineProductImage_def generateContent_def Let_def split_beta
        split: sum.splits)

lemma processItem_requests:
  "requestsOf (snd (processItem g p r evs item c)) = [generateContentRequest (original item) p r]"
  unfolding processItem_effects
  by (simp add: requestsOf_append setQueue_silent handleAll_silent split: sum.splits)

lemma processItem_answers:
  "answersOf (snd (processItem g p r evs item c)) = [g (generateContentRequest (original item) p r)]"
  unfolding processItem_effects
  by (simp add: answersOf_append setQueue_silent handleAll_silent split: sum.splits)

lemma processItems_requests:
  "requestsOf (snd (processItems ai env p r k items c)) =
     map (\<lambda>item. generateContentRequest (original item) p r) items"
proof (induction items arbitrary: k c)
  case Nil
  show ?case by simp
next
  case (Cons item items)
  show ?case
    by (simp only: processItems_Cons_effects requestsOf_append processItem_requests Cons.IH
          list.map append.simps)
qed

lemma processItems_answers:
  "answersOf (snd (processItems ai env p r k items c)) =
     map (\<lambda>(j, item). ai j (generateContentRequest (original item) p r)) (enumerate k items)"
proof (induction items arbitrary: k c)
  case Nil
  show ?case by simp
next
  case (Cons item items)
  show ?case
    by (simp only: processItems_Cons_effects answersOf_append processItem_answers Cons.IH
          enumerate_simps list.map append.simps prod.case)
qed

lemma processQueue_effects:
  "\<not> isProcessing s \<Longrightarrow>
     snd (processQueue ai env s) =
       snd (processItems ai env (customPrompt s) (aspectRatio s) 0
              (itemsToProcess (queue s)) \<lparr> cell = queue s, mounted = True \<rparr>)"
  by (simp add: processQueue_def split_beta Let_def)

lemma processQueue_state:
  "\<not> isProcessing s \<Longrightarrow>
     fst (processQueue ai env s) =
       s\<lparr> queue := cell (fst (processItems ai env (customPrompt s) (aspectRatio s) 0
              (itemsToProcess (queue s)) \<lparr> cell = queue s, mounted = True \<rparr>)),
          isProcessing := False \<rparr>"
  by (simp add: processQueue_def split_beta Let_def)

subsection \<open>A run without user events\<close>

lemma processItem_quiet_map:
  "\<exists>f. cell (fst (processItem g p r [] item c)) = map f (cell c)
       \<and> (\<forall>x. item_id (f x) = item_id x)
       \<and> (\<forall>x. item_id x \<noteq> item_id item \<longrightarrow> f x = x)
       \<and> (mounted c \<and> \<not> isl (settle (g (generateContentRequest (original item) p r)))
            \<longrightarrow> mounted (fst (processItem g p r [] item c))
                \<and> (\<forall>x. item_id x = item_id item \<longrightarrow> status (f x) = Success))"
proof (cases "mounted c")
  case False
  then have "fst (processItem g p r [] item c) = c"
    by (simp add: processItem_unmounted)
  then have "cell (fst (processItem g p r [] item c)) = map (\<lambda>x. x) (cell c)" by simp
  then show ?thesis using False by blast
next
  case True
  let ?i = "item_id item"
  let ?mp = "\<lambda>x. if item_id x = ?i then x\<lparr> status := Processing, error := None \<rparr> else x"
  let ?c1 = "c\<lparr> cell := markProcessing ?i (cell c) \<rparr>"
  let ?a = "settle (g (generateContentRequest (original item) p r))"
  have pi: "fst (processItem g p r [] item c) =
              fst (case ?a of
                     Inr v \<Rightarrow> setQueue (\<lambda>prev. Inr (markSuccess ?i v prev)) ?c1
                   | Inl e \<Rightarrow> setQueue (markError ?i e) ?c1)"
    using processItem_mounted [OF True, of g p r "[]" item] by (simp add: Let_def)
  have c1: "cell ?c1 = map ?mp (cell c)" by (simp add: markProcessing_def)
  show ?thesis
  proof (cases ?a)
    case (Inr v)
    let ?f = "\<lambda>x. if item_id x = ?i
                    then x\<lparr> status := Success, generated := v, error := None \<rparr> else x"
    have "cell (fst (processItem g p r [] item c)) = map ?f (cell c)"
      unfolding pi using True Inr
      by (simp add: setQueue_def markSuccess_def markProcessing_def)
    moreover have "mounted (fst (processItem g p r [] item c))"
      unfolding pi using True Inr by (simp add: setQueue_def)
    ultimately show ?thesis
      by (intro exI [of _ ?f]) simp
  next
    case (Inl e)
    then have notok: "isl ?a" by simp
    show ?thesis
    proof (cases "readMessage e")
      case (Inr m)
      let ?f = "\<lambda>x. if item_id x = ?i
                      then x\<lparr> status := Error, errorMessage := Some (messageOrFailed m),
                               error := None \<rparr> else x"
      have "cell (fst (processItem g p r [] item c)) = map ?f (cell c)"
        unfolding pi using True Inl Inr
        by (simp add: setQueue_def markError_readable markProcessing_def)
      then show ?thesis using notok
        by (intro exI [of _ ?f]) simp
    next
      case t: (Inl t)
      have "cell (fst (processItem g p r [] item c)) = map ?mp (cell c)"
        unfolding pi using True Inl t
        by (simp add: setQueue_def markError_unreadable markProcessing_def)
      then show ?thesis using notok
        by (intro exI [of _ ?mp]) simp
    qed
  qed
qed


lemma processItems_quiet_map:
  "\<exists>f. cell (fst (processItems ai quiet p r k items c)) = map f (cell c)
       \<and> (\<forall>x. item_id (f x) = item_id x)
       \<and> (\<forall>x. item_id x \<notin> item_id ` set items \<longrightarrow> f x = x)
       \<and> (mounted c \<and> (\<forall>a\<in>set (answersOf (snd (processItems ai quiet p r k items c))).
                          \<not> isl (settle a))
            \<longrightarrow> (\<forall>x. item_id x \<in> item_id ` set items \<longrightarrow> status (f x) = Success))"
proof (induction items arbitrary: k c)
  case Nil
  have "cell (fst (processItems ai quiet p r k [] c)) = map (\<lambda>x. x) (cell c)" by simp
  then show ?case by (intro exI [of _ "\<lambda>x. x"]) simp
next
  case (Cons item items)
  let ?req = "generateContentRequest (original item) p r"
  let ?c1 = "fst (processItem (ai k) p r [] item c)"
  let ?rest = "processItems ai quiet p r (Suc k) items ?c1"
  have comp: "fst (processItems ai quiet p r k (item # items) c) = fst ?rest"
    by (simp only: processItems_Cons_component quiet_def)
  have ans: "answersOf (snd (processItems ai quiet p r k (item # items) c)) =
               ai k ?req # answersOf (snd ?rest)"
    by (simp only: processItems_Cons_effects answersOf_append processItem_answers quiet_def
          append.simps)
  from processItem_quiet_map [of "ai k" p r item c]
  obtain f1 where f1: "cell ?c1 = map f1 (cell c)"
    and id1: "\<And>x. item_id (f1 x) = item_id x"
    and fr1: "\<And>x. item_id x \<noteq> item_id item \<Longrightarrow> f1 x = x"
    and ok1: "mounted c \<Longrightarrow> \<not> isl (settle (ai k ?req)) \<Longrightarrow>
                mounted ?c1 \<and> (\<forall>x. item_id x = item_id item \<longrightarrow> status (f1 x) = Success)"
    by blast
  from Cons.IH [of "Suc k" ?c1]
  obtain f2 where f2: "cell (fst ?rest) = map f2 (cell ?c1)"
    and id2: "\<And>x. item_id (f2 x) = item_id x"
    and fr2: "\<And>x. item_id x \<notin> item_id ` set items \<Longrightarrow> f2 x = x"
    and ok2: "mounted ?c1 \<Longrightarrow> \<forall>a\<in>set (answersOf (snd ?rest)). \<not> isl (settle a) \<Longrightarrow>
                (\<forall>x. item_id x \<in> item_id ` set items \<longrightarrow> status (f2 x) = Success)"
    by blast
  let ?f = "\<lambda>x. f2 (f1 x)"
  have a: "cell (fst (processItems ai quiet p r k (item # items) c)) = map ?f (cell c)"
    unfolding comp f2 f1 by simp
  have b: "\<forall>x. item_id (?f x) = item_id x"
    by (simp add: id1 id2)
  have c: "\<forall>x. item_id x \<notin> item_id ` set (item # items) \<longrightarrow> ?f x = x"
  proof (intro allI impI)
    fix x :: BatchItem
    assume n: "item_id x \<notin> item_id ` set (item # items)"
    then have "f1 x = x" by (intro fr1) auto
    moreover have "f2 x = x" using n by (intro fr2) auto
    ultimately show "?f x = x" by simp
  qed
  have d: "mounted c \<and> (\<forall>a\<in>set (answersOf (snd (processItems ai quiet p r k (item # items) c))).
                          \<not> isl (settle a))
            \<longrightarrow> (\<forall>x. item_id x \<in> item_id ` set (item # items) \<longrightarrow> status (?f x) = Success)"
  proof (intro allI impI)
    fix x :: BatchItem
    assume h: "mounted c \<and> (\<forall>a\<in>set (answersOf (snd (processItems ai quiet p r k (item # items) c))).
                          \<not> isl (settle a))"
      and x: "item_id x \<in> item_id ` set (item # items)"
    from h have m: "mounted c" and first: "\<not> isl (settle (ai k ?req))"
      and others: "\<forall>a\<in>set (answersOf (snd ?rest)). \<not> isl (settle a)"
      unfolding ans by simp_all
    from ok1 [OF m first] have m1: "mounted ?c1"
      and s1: "\<And>y. item_id y = item_id item \<Longrightarrow> status (f1 y) = Success" by blast+
    from ok2 [OF m1 others]
    have s2: "\<And>y. item_id y \<in> item_id ` set items \<Longrightarrow> status (f2 y) = Success" by blast
    show "status (?f x) = Success"
    proof (cases "item_id x \<in> item_id ` set items")
      case True
      then have "item_id (f1 x) \<in> item_id ` set items" by (simp add: id1)
      then show ?thesis by (rule s2)
    next
      case False
      with x have i: "item_id x = item_id item" by simp
      have "item_id (f1 x) \<notin> item_id ` set items" using False by (simp add: id1)
      then have "f2 (f1 x) = f1 x" by (rule fr2)
      then show ?thesis using s1 [OF i] by simp
    qed
  qed
  show ?case
    by (intro exI [of _ ?f] conjI) (rule a, rule b, rule c, rule d)
qed

subsection \<open>The service call and the buttons\<close>

lemma refineProductImage_fst:
  "fst (refineProductImage g during b c a w) = settle (g (generateContentRequest b c a))"
  by (simp add: refineProductImage_def generateContent_def Let_def split_beta)

lemma firstImage_Inr:
  "firstImage ps = Inr r \<Longrightarrow> \<exists>d. d \<noteq> [] \<and> r = Some (''data:image/png;base64,'' @ d)"
  by (induction ps) (auto split: option.splits if_splits)

lemma firstImage_none:
  "\<forall>p\<in>set ps. \<not> hasImageData p \<Longrightarrow> firstImage ps = Inl NoImageError"
  by (induction ps) (auto simp: hasImageData_def split: option.splits)

lemma extractImage_Inr:
  "extractImage resp = Inr r \<Longrightarrow> \<exists>d. d \<noteq> [] \<and> r = Some (''data:image/png;base64,'' @ d)"
  unfolding extractImage_def
  by (auto split: option.splits list.splits dest: firstImage_Inr)

lemma extractImage_none:
  "candidates resp = Some (cand # cs) \<Longrightarrow> content cand = Some ct \<Longrightarrow> parts ct = Some ps
     \<Longrightarrow> \<forall>p\<in>set ps. \<not> hasImageData p \<Longrightarrow> extractImage resp = Inl NoImageError"
  by (simp add: extractImage_def firstImage_none)

lemma itemsToProcess_empty_iff:
  "itemsToProcess q = [] \<longleftrightarrow> (\<forall>x\<in>set q. \<not> (status x = Idle \<or> status x = Error))"
  by (simp add: itemsToProcess_def filter_empty_conv)

lemma dispatch_RemoveClicked_cell:
  "mounted c \<Longrightarrow> cell (fst (dispatch (RemoveClicked k) c)) = removeButton_click k (cell c)"
  by (simp add: removeButton_click_def setQueue_def split: option.splits)

lemma enumerate_map:
  "enumerate k (map f xs) = map (\<lambda>(j, x). (j, f x)) (enumerate k xs)"
  by (induction xs arbitrary: k) simp_all

section \<open>The claims\<close>

text \<open>
  C1. An item whose call failed in one run and succeeded in the next has status
  \<^verbatim>\<open>success\<close>, a generated image and the error message of the failed call, all at once;
  so it is when another image is uploaded between the two runs.
\<close>

theorem errorMessage_survives_successful_retry:
  "map (\<lambda>x. (status x, generated x, errorMessage x))
     (queue (fst (processQueue allSucceed quiet (fst (processQueue allFail quiet oneItem)))))
   = [(Success, Some ''data:image/png;base64,QUJD'', Some ''quota exceeded'')]
   \<and> map (\<lambda>x. (item_id x, status x, generated x, errorMessage x))
         (queue (fst (processQueue allSucceed quiet
            ((fst (processQueue allFail quiet oneItem))
               \<lparr> queue := handleImagesSelect [(''d'', exampleImageB)]
                            (queue (fst (processQueue allFail quiet oneItem))) \<rparr>))))
   = [(''a'', Success, Some ''data:image/png;base64,QUJD'', Some ''quota exceeded''),
      (''d'', Success, Some ''data:image/png;base64,QUJD'', None)]"
  by (simp add: example_defs run_defs)

text \<open>
  C2. The update that marks a failed item \<^verbatim>\<open>processing\<close> writes the property \<^verbatim>\<open>error\<close> and
  leaves \<^verbatim>\<open>errorMessage\<close> as it is; when the call then succeeds, the item has status
  \<^verbatim>\<open>success\<close> and still its old error message.
\<close>

theorem retry_keeps_errorMessage:
  "map (\<lambda>x. (status x, errorMessage x)) (markProcessing ''a'' [failedItem])
     = [(Processing, Some ''quota exceeded'')]
   \<and> map (\<lambda>x. (status x, errorMessage x))
         (cell (fst (processItem succeeds [] SQUARE [] failedItem
                       \<lparr> cell = [failedItem], mounted = True \<rparr>)))
     = [(Success, Some ''quota exceeded'')]"
  by (simp add: example_defs run_defs)

text \<open>
  C3. While \<^verbatim>\<open>isProcessing\<close> holds, \<^verbatim>\<open>processQueue\<close> returns at once: the state is the one
  it was called in, and no queue update and no call to the service takes place.
\<close>

theorem processQueue_reentrant_noop:
  "isProcessing s \<Longrightarrow> processQueue ai env s = (s, [])"
  by (simp add: processQueue_def)

theorem processQueue_reentrant_noop_witness:
  "isProcessing (threeItems\<lparr> isProcessing := True \<rparr>)
   \<and> processQueue secondFails lateUpload (threeItems\<lparr> isProcessing := True \<rparr>)
       = (threeItems\<lparr> isProcessing := True \<rparr>, [])"
  using processQueue_reentrant_noop [of "threeItems\<lparr> isProcessing := True \<rparr>" secondFails lateUpload]
  by simp

text \<open>
  C4. When the service rejects the call of an item with \<^verbatim>\<open>undefined\<close>, the updater of lines
  48 to 52 throws as it reads \<^verbatim>\<open>error.message\<close>: the item keeps the status \<^verbatim>\<open>processing\<close>
  and is never set to \<^verbatim>\<open>error\<close>, the component is unmounted, and the requests of the
  remaining items go out with no further update of the queue.
\<close>

theorem undefined_rejection_is_never_recorded:
  "snd (processQueue allRejectUndefined quiet oneItem)
     = [Updated [\<lparr> item_id = ''a'', original = exampleImage, generated = None,
                  status = Processing, errorMessage = None, error = None \<rparr>],
        Requested (generateContentRequest exampleImage [] SQUARE),
        Answered (Inl ThrownUndefined),
        Unmounted (TypeError ''undefined'' ''message'')]
   \<and> map (\<lambda>x. (item_id x, status x, errorMessage x))
         (queue (fst (processQueue allRejectUndefined quiet oneItem)))
       = [(''a'', Processing, None)]
   \<and> map (\<lambda>x. (item_id x, status x, errorMessage x))
         (queue (fst (processQueue firstRejectsUndefined quiet threeItems)))
       = [(''a'', Processing, None), (''b'', Idle, None), (''c'', Idle, None)]
   \<and> updatesOf (drop 4 (snd (processQueue firstRejectsUndefined quiet threeItems))) = []
   \<and> length (requestsOf (snd (processQueue firstRejectsUndefined quiet threeItems))) = 3"
  by (simp add: example_defs run_defs)

text \<open>
  C5. Take a run started while no run is in progress, with no user event during it and
  with every call fulfilled. When it ends the queue holds items of the same identifiers
  in the same order, every item with the identifier of a selected item has status
  \<^verbatim>\<open>success\<close>, and no item is eligible. A second run from that state starts no call and
  returns the state as it is.
\<close>

theorem second_run_does_nothing:
  assumes "\<not> isProcessing s"
    and "\<forall>a\<in>set (answersOf (snd (processQueue ai quiet s))). \<not> isl (settle a)"
  shows "map item_id (queue (fst (processQueue ai quiet s))) = map item_id (queue s)
         \<and> (\<forall>x\<in>set (queue (fst (processQueue ai quiet s))).
               item_id x \<in> item_id ` set (itemsToProcess (queue s)) \<longrightarrow> status x = Success)
         \<and> itemsToProcess (queue (fst (processQueue ai quiet s))) = []
         \<and> processQueue ai' env' (fst (processQueue ai quiet s))
             = (fst (processQueue ai quiet s), [])"
proof -
  let ?items = "itemsToProcess (queue s)"
  let ?c0 = "\<lparr> cell = queue s, mounted = True \<rparr>"
  let ?run = "processItems ai quiet (customPrompt s) (aspectRatio s) 0 ?items ?c0"
  let ?q' = "cell (fst ?run)"
  let ?s1 = "fst (processQueue ai quiet s)"
  have s1: "?s1 = s\<lparr> queue := ?q', isProcessing := False \<rparr>"
    by (rule processQueue_state [OF assms(1)])
  have q': "queue ?s1 = ?q'" by (simp add: s1)
  have ok: "\<forall>a\<in>set (answersOf (snd ?run)). \<not> isl (settle a)"
    using assms(2) unfolding processQueue_effects [OF assms(1)] .
  from processItems_quiet_map [of ai "customPrompt s" "aspectRatio s" 0 ?items ?c0]
  obtain f where f: "?q' = map f (queue s)"
    and ids: "\<And>x. item_id (f x) = item_id x"
    and same: "\<And>x. item_id x \<notin> item_id ` set ?items \<Longrightarrow> f x = x"
    and succ0: "mounted ?c0 \<and> (\<forall>a\<in>set (answersOf (snd ?run)). \<not> isl (settle a))
                  \<longrightarrow> (\<forall>x. item_id x \<in> item_id ` set ?items \<longrightarrow> status (f x) = Success)"
    by auto
  have succ: "\<And>x. item_id x \<in> item_id ` set ?items \<Longrightarrow> status (f x) = Success"
    using succ0 ok by simp
  have c1: "map item_id (queue ?s1) = map item_id (queue s)"
    unfolding q' f by (simp add: ids)
  have c2: "\<forall>x\<in>set (queue ?s1). item_id x \<in> item_id ` set ?items \<longrightarrow> status x = Success"
  proof (intro ballI impI)
    fix x
    assume "x \<in> set (queue ?s1)" and i: "item_id x \<in> item_id ` set ?items"
    then obtain y where x: "x = f y" unfolding q' f by auto
    from i have "item_id y \<in> item_id ` set ?items" unfolding x by (simp add: ids)
    then show "status x = Success" unfolding x by (rule succ)
  qed
  have ne: "\<forall>x\<in>set ?q'. \<not> (status x = Idle \<or> status x = Error)"
  proof (intro ballI)
    fix x
    assume "x \<in> set ?q'"
    then obtain y where y: "y \<in> set (queue s)" and x: "x = f y" unfolding f by auto
    show "\<not> (status x = Idle \<or> status x = Error)"
    proof (cases "item_id y \<in> item_id ` set ?items")
      case True
      then have "status (f y) = Success" by (rule succ)
      then show ?thesis unfolding x by simp
    next
      case False
      then have "y \<notin> set ?items" by (rule contrapos_nn) (rule imageI)
      with y have "\<not> (status y = Idle \<or> status y = Error)"
        by (simp add: itemsToProcess_def)
      moreover have "f y = y" using False by (rule same)
      ultimately show ?thesis unfolding x by simp
    qed
  qed
  have c3: "itemsToProcess (queue ?s1) = []"
    unfolding q' itemsToProcess_empty_iff by (rule ne)
  have c4: "processQueue ai' env' ?s1 = (?s1, [])"
  proof -
    define s1 where "s1 = ?s1"
    have p: "\<not> isProcessing s1" and e: "itemsToProcess (queue s1) = []"
      unfolding s1_def using c3 by (simp_all add: s1)
    have "processQueue ai' env' s1 = (s1\<lparr> queue := queue s1, isProcessing := False \<rparr>, [])"
      using p e by (simp add: processQueue_def)
    moreover have "s1\<lparr> queue := queue s1, isProcessing := False \<rparr> = s1"
      using p by simp
    ultimately show ?thesis unfolding s1_def by simp
  qed
  show ?thesis by (intro conjI) (rule c1, rule c2, rule c3, rule c4)
qed

theorem second_run_does_nothing_witness:
  "\<not> isProcessing threeItems
   \<and> map (\<lambda>a. isl (settle a)) (answersOf (snd (processQueue allSucceed quiet threeItems)))
       = [False, False, False]
   \<and> map (\<lambda>x. (item_id x, status x)) (queue (fst (processQueue allSucceed quiet threeItems)))
       = [(''a'', Success), (''b'', Success), (''c'', Success)]
   \<and> itemsToProcess (queue (fst (processQueue allSucceed quiet threeItems))) = []
   \<and> processQueue allFail lateUpload (fst (processQueue allSucceed quiet threeItems))
       = (fst (processQueue allSucceed quiet threeItems), [])"
proof -
  have a: "\<not> isProcessing threeItems" by (simp add: threeItems_def)
  have "answersOf (snd (processQueue allSucceed quiet threeItems))
       = map (\<lambda>(j, item). allSucceed j
                (generateContentRequest (original item) (customPrompt threeItems)
                   (aspectRatio threeItems)))
           (enumerate 0 (itemsToProcess (queue threeItems)))"
    by (simp only: processQueue_effects [OF a] processItems_answers)
  then have b': "answersOf (snd (processQueue allSucceed quiet threeItems))
       = [Inr imageResponse, Inr imageResponse, Inr imageResponse]"
    by (simp add: allSucceed_def succeeds_def threeItems_def itemsToProcess_def
          handleImagesSelect_def newItem_def)
  have ok: "\<not> isl (settle (Inr imageResponse))"
    by (simp add: settle_def imageResponse_def extractImage_def)
  have b: "map (\<lambda>a. isl (settle a)) (answersOf (snd (processQueue allSucceed quiet threeItems)))
       = [False, False, False]"
    unfolding b' using ok by simp
  have c: "\<forall>a\<in>set (answersOf (snd (processQueue allSucceed quiet threeItems))). \<not> isl (settle a)"
    unfolding b' using ok by simp
  have d: "map (\<lambda>x. (item_id x, status x)) (queue (fst (processQueue allSucceed quiet threeItems)))
       = [(''a'', Success), (''b'', Success), (''c'', Success)]"
    by (simp add: example_defs run_defs)
  show ?thesis
    using second_run_does_nothing [OF a c, of allFail lateUpload] a b d by simp
qed



text \<open>
  C7. A run started while no run is in progress sends a request for exactly the items of
  the queue, as it is when the run starts, whose status is \<^verbatim>\<open>idle\<close> or \<^verbatim>\<open>error\<close>, once each
  and in the order of the queue, whatever the service answers and whatever user events
  arrive during the run: an item with status \<^verbatim>\<open>success\<close> or \<^verbatim>\<open>processing\<close> is not taken,
  and neither is an item added after the start.
\<close>

theorem run_processes_snapshot_eligible:
  assumes "\<not> isProcessing s"
  shows "requestsOf (snd (processQueue ai env s)) =
           map (\<lambda>item. generateContentRequest (original item) (customPrompt s) (aspectRatio s))
               (itemsToProcess (queue s))
         \<and> set (itemsToProcess (queue s))
             = {x \<in> set (queue s). status x = Idle \<or> status x = Error}
         \<and> (\<forall>x\<in>set (itemsToProcess (queue s)). status x \<noteq> Success \<and> status x \<noteq> Processing)"
proof (intro conjI)
  show "requestsOf (snd (processQueue ai env s)) =
           map (\<lambda>item. generateContentRequest (original item) (customPrompt s) (aspectRatio s))
               (itemsToProcess (queue s))"
    unfolding processQueue_effects [OF assms] by (rule processItems_requests)
  show "set (itemsToProcess (queue s)) = {x \<in> set (queue s). status x = Idle \<or> status x = Error}"
    by (simp add: itemsToProcess_def)
  show "\<forall>x\<in>set (itemsToProcess (queue s)). status x \<noteq> Success \<and> status x \<noteq> Processing"
    by (auto simp: itemsToProcess_def)
qed

theorem run_processes_snapshot_eligible_witness:
  "\<not> isProcessing (fst (processQueue secondFails quiet threeItems))
   \<and> map (\<lambda>x. (item_id x, original x, status x))
         (queue (fst (processQueue secondFails quiet threeItems)))
       = [(''a'', exampleImage, Success), (''b'', exampleImageB, Error),
          (''c'', exampleImageC, Success)]
   \<and> requestsOf (snd (processQueue allSucceed lateUpload
                         (fst (processQueue secondFails quiet threeItems))))
       = [generateContentRequest exampleImageB ''pure white background'' PORTRAIT]
   \<and> map (\<lambda>x. (item_id x, status x))
         (queue (fst (processQueue allSucceed lateUpload
                        (fst (processQueue secondFails quiet threeItems)))))
       = [(''a'', Success), (''b'', Success), (''c'', Success), (''d'', Idle)]"
proof -
  let ?s1 = "fst (processQueue secondFails quiet threeItems)"
  have a: "\<not> isProcessing ?s1"
    by (simp add: example_defs run_defs)
  have b: "map (\<lambda>x. (item_id x, original x, status x)) (queue ?s1)
       = [(''a'', exampleImage, Success), (''b'', exampleImageB, Error),
          (''c'', exampleImageC, Success)]"
    by (simp add: example_defs run_defs)
  have c: "map (\<lambda>item. generateContentRequest (original item) (customPrompt ?s1) (aspectRatio ?s1))
             (itemsToProcess (queue ?s1))
       = [generateContentRequest exampleImageB ''pure white background'' PORTRAIT]"
    by (simp add: example_defs run_defs)
  have d: "map (\<lambda>x. (item_id x, status x))
         (queue (fst (processQueue allSucceed lateUpload ?s1)))
       = [(''a'', Success), (''b'', Success), (''c'', Success), (''d'', Idle)]"
    by (simp add: example_defs run_defs)
  have "requestsOf (snd (processQueue allSucceed lateUpload ?s1))
       = [generateContentRequest exampleImageB ''pure white background'' PORTRAIT]"
    using run_processes_snapshot_eligible [OF a, of allSucceed lateUpload] unfolding c
    by (rule conjunct1)
  with a b d show ?thesis by simp
qed

text \<open>
  C8. Every request that a run sends to the service carries the aspect ratio of the state
  the run was started in, and its text part is the fixed prompt around the custom
  instruction of that state, or around the default instruction when the custom
  instruction is empty. A run started while no run is in progress sends one request for
  each selected item, and each answer of the run is the service's answer to the request
  sent.
\<close>

theorem request_carries_ratio_and_instruction:
  "(\<forall>req\<in>set (requestsOf (snd (processQueue ai env s))).
      imageConfig_aspectRatio req = aspectRatio s
      \<and> map partText (contents_parts req) =
          [None,
           Some (promptHead
                 @ (if customPrompt s = [] then defaultInstruction else customPrompt s)
                 @ promptTail)])
   \<and> (\<not> isProcessing s \<longrightarrow>
        length (requestsOf (snd (processQueue ai env s))) = length (itemsToProcess (queue s))
        \<and> answersOf (snd (processQueue ai env s)) =
            map (\<lambda>(k, req). ai k req) (enumerate 0 (requestsOf (snd (processQueue ai env s)))))"
proof (cases "isProcessing s")
  case True
  then show ?thesis by (simp add: processQueue_def)
next
  case False
  let ?req = "\<lambda>item. generateContentRequest (original item) (customPrompt s) (aspectRatio s)"
  have rq: "requestsOf (snd (processQueue ai env s)) = map ?req (itemsToProcess (queue s))"
    unfolding processQueue_effects [OF False] by (rule processItems_requests)
  have an: "answersOf (snd (processQueue ai env s)) =
              map (\<lambda>(j, item). ai j (?req item)) (enumerate 0 (itemsToProcess (queue s)))"
    unfolding processQueue_effects [OF False] by (rule processItems_answers)
  have a: "\<forall>req\<in>set (requestsOf (snd (processQueue ai env s))).
      imageConfig_aspectRatio req = aspectRatio s
      \<and> map partText (contents_parts req) =
          [None,
           Some (promptHead
                 @ (if customPrompt s = [] then defaultInstruction else customPrompt s)
                 @ promptTail)]"
    unfolding rq by (auto simp: generateContentRequest_def Let_def prompt_def or_js_def)
  have b: "length (requestsOf (snd (processQueue ai env s))) = length (itemsToProcess (queue s))"
    unfolding rq by simp
  have c: "answersOf (snd (processQueue ai env s)) =
            map (\<lambda>(k, req). ai k req) (enumerate 0 (requestsOf (snd (processQueue ai env s))))"
    unfolding rq an by (simp add: enumerate_map split_beta comp_def)
  from a b c show ?thesis by blast
qed

theorem request_carries_ratio_and_instruction_witness:
  "\<not> isProcessing threeItems
   \<and> map (\<lambda>req. (imageConfig_aspectRatio req, map inlineData (contents_parts req),
                   map partText (contents_parts req)))
       (requestsOf (snd (processQueue secondFails quiet threeItems)))
     = [(PORTRAIT,
         [Some \<lparr> data = Some ''AAAA'', mimeType = Some ''image/png'' \<rparr>, None],
         [None, Some (promptHead @ ''pure white background'' @ promptTail)]),
        (PORTRAIT,
         [Some \<lparr> data = Some ''BBBB'', mimeType = Some ''image/jpeg'' \<rparr>, None],
         [None, Some (promptHead @ ''pure white background'' @ promptTail)]),
        (PORTRAIT,
         [Some \<lparr> data = Some ''CCCC'', mimeType = Some ''image/webp'' \<rparr>, None],
         [None, Some (promptHead @ ''pure white background'' @ promptTail)])]
   \<and> answersOf (snd (processQueue secondFails quiet threeItems))
     = [Inr imageResponse, Inl (ThrownError (Some ''quota exceeded'')), Inr imageResponse]
   \<and> map (\<lambda>req. (imageConfig_aspectRatio req, map partText (contents_parts req)))
       (requestsOf (snd (processQueue allSucceed quiet oneItem)))
     = [(SQUARE, [None, Some (promptHead @ defaultInstruction @ promptTail)])]"
proof -
  have p3: "\<not> isProcessing threeItems" by (simp add: threeItems_def)
  have p1: "\<not> isProcessing oneItem" by (simp add: oneItem_def)
  have "requestsOf (snd (processQueue secondFails quiet threeItems)) =
          map (\<lambda>item. generateContentRequest (original item) (customPrompt threeItems)
                 (aspectRatio threeItems))
              (itemsToProcess (queue threeItems))"
    by (simp only: processQueue_effects [OF p3] processItems_requests)
  then have a: "requestsOf (snd (processQueue secondFails quiet threeItems)) =
             [generateContentRequest exampleImage ''pure white background'' PORTRAIT,
              generateContentRequest exampleImageB ''pure white background'' PORTRAIT,
              generateContentRequest exampleImageC ''pure white background'' PORTRAIT]"
    by (simp add: threeItems_def itemsToProcess_def handleImagesSelect_def newItem_def)
  have "requestsOf (snd (processQueue allSucceed quiet oneItem)) =
          map (\<lambda>item. generateContentRequest (original item) (customPrompt oneItem)
                 (aspectRatio oneItem))
              (itemsToProcess (queue oneItem))"
    by (simp only: processQueue_effects [OF p1] processItems_requests)
  then have b: "requestsOf (snd (processQueue allSucceed quiet oneItem)) =
             [generateContentRequest exampleImage [] SQUARE]"
    by (simp add: oneItem_def itemsToProcess_def handleImagesSelect_def newItem_def)
  have d: "map (map inlineData \<circ> contents_parts)
             [generateContentRequest exampleImage ''pure white background'' PORTRAIT,
              generateContentRequest exampleImageB ''pure white background'' PORTRAIT,
              generateContentRequest exampleImageC ''pure white background'' PORTRAIT]
        = [[Some \<lparr> data = Some ''AAAA'', mimeType = Some ''image/png'' \<rparr>, None],
           [Some \<lparr> data = Some ''BBBB'', mimeType = Some ''image/jpeg'' \<rparr>, None],
           [Some \<lparr> data = Some ''CCCC'', mimeType = Some ''image/webp'' \<rparr>, None]]"
    by (simp add: generateContentRequest_def exampleImage_def exampleImageB_def
          exampleImageC_def at_js_def substring_def Let_def)
  note T = request_carries_ratio_and_instruction [of secondFails quiet threeItems]
  from T have "\<forall>req\<in>set (requestsOf (snd (processQueue secondFails quiet threeItems))).
      imageConfig_aspectRatio req = aspectRatio threeItems
      \<and> map partText (contents_parts req) =
          [None,
           Some (promptHead
                 @ (if customPrompt threeItems = [] then defaultInstruction
                    else customPrompt threeItems)
                 @ promptTail)]"
    by (rule conjunct1)
  then have rt: "map (\<lambda>req. (imageConfig_aspectRatio req, map partText (contents_parts req)))
       [generateContentRequest exampleImage ''pure white background'' PORTRAIT,
        generateContentRequest exampleImageB ''pure white background'' PORTRAIT,
        generateContentRequest exampleImageC ''pure white background'' PORTRAIT]
     = [(PORTRAIT, [None, Some (promptHead @ ''pure white background'' @ promptTail)]),
        (PORTRAIT, [None, Some (promptHead @ ''pure white background'' @ promptTail)]),
        (PORTRAIT, [None, Some (promptHead @ ''pure white background'' @ promptTail)])]"
    unfolding a by (simp add: threeItems_def)
  from T p3 have "answersOf (snd (processQueue secondFails quiet threeItems)) =
      map (\<lambda>(k, req). secondFails k req)
        (enumerate 0 (requestsOf (snd (processQueue secondFails quiet threeItems))))"
    by blast
  then have ans: "answersOf (snd (processQueue secondFails quiet threeItems))
     = [Inr imageResponse, Inl (ThrownError (Some ''quota exceeded'')), Inr imageResponse]"
    unfolding a by (simp add: secondFails_def succeeds_def fails_def)
  note U = request_carries_ratio_and_instruction [of allSucceed quiet oneItem]
  from U have "\<forall>req\<in>set (requestsOf (snd (processQueue allSucceed quiet oneItem))).
      imageConfig_aspectRatio req = aspectRatio oneItem
      \<and> map partText (contents_parts req) =
          [None,
           Some (promptHead
                 @ (if customPrompt oneItem = [] then defaultInstruction
                    else customPrompt oneItem)
                 @ promptTail)]"
    by (rule conjunct1)
  then have one: "map (\<lambda>req. (imageConfig_aspectRatio req, map partText (contents_parts req)))
       [generateContentRequest exampleImage [] SQUARE]
     = [(SQUARE, [None, Some (promptHead @ defaultInstruction @ promptTail)])]"
    unfolding b by (simp add: oneItem_def)
  from rt have rt1:
    "imageConfig_aspectRatio (generateContentRequest exampleImage ''pure white background'' PORTRAIT)
       = PORTRAIT"
    "imageConfig_aspectRatio (generateContentRequest exampleImageB ''pure white background'' PORTRAIT)
       = PORTRAIT"
    "imageConfig_aspectRatio (generateContentRequest exampleImageC ''pure white background'' PORTRAIT)
       = PORTRAIT"
    "map partText (contents_parts
        (generateContentRequest exampleImage ''pure white background'' PORTRAIT))
       = [None, Some (promptHead @ ''pure white background'' @ promptTail)]"
    "map partText (contents_parts
        (generateContentRequest exampleImageB ''pure white background'' PORTRAIT))
       = [None, Some (promptHead @ ''pure white background'' @ promptTail)]"
    "map partText (contents_parts
        (generateContentRequest exampleImageC ''pure white background'' PORTRAIT))
       = [None, Some (promptHead @ ''pure white background'' @ promptTail)]"
    by simp_all
  from d have d1:
    "map inlineData (contents_parts
        (generateContentRequest exampleImage ''pure white background'' PORTRAIT))
       = [Some \<lparr> data = Some ''AAAA'', mimeType = Some ''image/png'' \<rparr>, None]"
    "map inlineData (contents_parts
        (generateContentRequest exampleImageB ''pure white background'' PORTRAIT))
       = [Some \<lparr> data = Some ''BBBB'', mimeType = Some ''image/jpeg'' \<rparr>, None]"
    "map inlineData (contents_parts
        (generateContentRequest exampleImageC ''pure white background'' PORTRAIT))
       = [Some \<lparr> data = Some ''CCCC'', mimeType = Some ''image/webp'' \<rparr>, None]"
    by simp_all
  show ?thesis
    unfolding a b ans using p3 one by (simp only: list.map rt1 d1 simp_thms)
qed

text \<open>
  C9. The remove button of an item whose status is \<^verbatim>\<open>processing\<close> is disabled: a click on
  it leaves the queue as it is, so its length and the status of the item are unchanged.
\<close>

theorem remove_while_processing_noop:
  "k < length q \<Longrightarrow> status (q ! k) = Processing \<Longrightarrow>
     removeButton_click k q = q
     \<and> length (removeButton_click k q) = length q
     \<and> status (removeButton_click k q ! k) = Processing"
  by (simp add: removeButton_click_def removeButton_disabled_def at_js_def)

theorem remove_while_processing_noop_witness:
  "(1::nat) < length (markProcessing ''b'' (queue threeItems))
   \<and> status (markProcessing ''b'' (queue threeItems) ! 1) = Processing
   \<and> removeButton_click 1 (markProcessing ''b'' (queue threeItems))
       = markProcessing ''b'' (queue threeItems)
   \<and> length (removeButton_click 1 (markProcessing ''b'' (queue threeItems))) = 3"
  using remove_while_processing_noop [of 1 "markProcessing ''b'' (queue threeItems)"]
  by (simp add: threeItems_def handleImagesSelect_def newItem_def markProcessing_def)

text \<open>
  C10. Whatever the service answers, \<^verbatim>\<open>refineProductImage\<close> rejects or fulfils with a string
  that starts with \<^verbatim>\<open>data:image/png;base64,\<close> and goes on with image data; it never
  fulfils with \<^verbatim>\<open>null\<close>. On a response whose parts carry no inline image data it rejects
  with the error of line 72.
\<close>

theorem refineProductImage_data_url_or_throws:
  "(\<forall>r. fst (refineProductImage g during b c a w) = Inr r \<longrightarrow>
        (\<exists>d. d \<noteq> [] \<and> r = Some (''data:image/png;base64,'' @ d)))
   \<and> (g (generateContentRequest b c a) = Inr resp \<and> candidates resp = Some (cand # cs)
        \<and> content cand = Some ct \<and> parts ct = Some ps \<and> (\<forall>p\<in>set ps. \<not> hasImageData p)
      \<longrightarrow> fst (refineProductImage g during b c a w) = Inl NoImageError)"
proof (intro conjI allI impI)
  fix r
  assume "fst (refineProductImage g during b c a w) = Inr r"
  then obtain resp' where "extractImage resp' = Inr r"
    by (auto simp: refineProductImage_fst settle_def split: sum.splits)
  then show "\<exists>d. d \<noteq> [] \<and> r = Some (''data:image/png;base64,'' @ d)"
    by (rule extractImage_Inr)
next
  assume h: "g (generateContentRequest b c a) = Inr resp \<and> candidates resp = Some (cand # cs)
        \<and> content cand = Some ct \<and> parts ct = Some ps \<and> (\<forall>p\<in>set ps. \<not> hasImageData p)"
  then have "extractImage resp = Inl NoImageError"
    by (intro extractImage_none) auto
  with h show "fst (refineProductImage g during b c a w) = Inl NoImageError"
    by (simp add: refineProductImage_fst settle_def)
qed

theorem refineProductImage_data_url_or_throws_witness:
  "fst (refineProductImage succeeds (handleAll []) exampleImage [] SQUARE
          \<lparr> cell = [], mounted = True \<rparr>)
     = Inr (Some (''data:image/png;base64,'' @ ''QUJD''))
   \<and> answersText (generateContentRequest exampleImage [] SQUARE) = Inr textResponse
   \<and> candidates textResponse
       = Some [\<lparr> content = Some \<lparr> parts = Some [\<lparr> inlineData = None, partText = Some ''Sorry.'' \<rparr>] \<rparr> \<rparr>]
   \<and> \<not> hasImageData \<lparr> inlineData = None, partText = Some ''Sorry.'' \<rparr>
   \<and> fst (refineProductImage answersText (handleAll []) exampleImage [] SQUARE
            \<lparr> cell = [], mounted = True \<rparr>) = Inl NoImageError"
  using refineProductImage_data_url_or_throws
          [of succeeds "handleAll []" exampleImage "[]" SQUARE "\<lparr> cell = [], mounted = True \<rparr>"]
        refineProductImage_data_url_or_throws
          [of answersText "handleAll []" exampleImage "[]" SQUARE "\<lparr> cell = [], mounted = True \<rparr>"
              textResponse
              "\<lparr> content = Some \<lparr> parts = Some [\<lparr> inlineData = None, partText = Some ''Sorry.'' \<rparr>] \<rparr> \<rparr>"
              "[]" "\<lparr> parts = Some [\<lparr> inlineData = None, partText = Some ''Sorry.'' \<rparr>] \<rparr>"
              "[\<lparr> inlineData = None, partText = Some ''Sorry.'' \<rparr>]"]
  by (simp add: refineProductImage_fst settle_def succeeds_def answersText_def imageResponse_def
        textResponse_def extractImage_def hasImageData_def)

end
